theory Spec2Isabelle
  imports Main "HOL-Library.Word"
begin

unbundle bit_operations_syntax

section \<open>Pre-commit hashing for RNG aggregation: the model of \<open>pre_commit_hashing.py\<close>\<close>

text \<open>
  Python's \<open>bytes\<close> is a list of 8-bit words, Python's \<open>int\<close> is \<open>int\<close>.
  Every exception the module can raise is a constructor of \<open>error\<close>, and a function
  that can raise returns \<open>error + 'a\<close> with \<open>Inl\<close> for the exception.
\<close>

type_synonym byte = "8 word"
type_synonym bytes = "byte list"

datatype error = IndexError | OverflowError | ValueError | CryptoError

subsection \<open>\<open>xor_all\<close>\<close>

text \<open>
  \<^verbatim>\<open>bytes([a ^ b for a, b in zip(result, x[i])])\<close>: \<open>zip\<close> stops at the shorter
  operand, without any complaint.
\<close>

definition xor_bytes :: "bytes \<Rightarrow> bytes \<Rightarrow> bytes" where
  "xor_bytes result y = map (\<lambda>(a, b). a XOR b) (zip result y)"

text \<open>The loop \<^verbatim>\<open>for i in range(1, len(x))\<close>, over the elements after the first.\<close>

fun xor_loop :: "bytes \<Rightarrow> bytes list \<Rightarrow> bytes" where
  "xor_loop result [] = result"
| "xor_loop result (y # ys) = xor_loop (xor_bytes result y) ys"

text \<open>\<^verbatim>\<open>result = x[0]\<close> raises IndexError on the empty list.\<close>

fun xor_all :: "bytes list \<Rightarrow> error + bytes" where
  "xor_all [] = Inl IndexError"
| "xor_all (x0 # rest) = Inr (xor_loop x0 rest)"

subsection \<open>Integers and bytes\<close>

text \<open>\<^verbatim>\<open>int.bit_length()\<close>: the number of bits of the absolute value.\<close>

fun bit_length_nat :: "nat \<Rightarrow> nat" where
  "bit_length_nat n = (if n = 0 then 0 else Suc (bit_length_nat (n div 2)))"

declare bit_length_nat.simps [simp del]

definition bit_length :: "int \<Rightarrow> nat" where
  "bit_length x = bit_length_nat (nat \<bar>x\<bar>)"

text \<open>The \<open>len\<close> low-order base-256 digits of \<open>v\<close>, most significant first.\<close>

fun be_bytes :: "nat \<Rightarrow> int \<Rightarrow> bytes" where
  "be_bytes 0 v = []"
| "be_bytes (Suc len) v = be_bytes len (v div 256) @ [word_of_int (v mod 256)]"

text \<open>
  \<^verbatim>\<open>x.to_bytes(length, 'big')\<close> (unsigned): OverflowError for a negative \<open>x\<close> and
  for an \<open>x\<close> that does not fit \<open>length\<close> bytes.
\<close>

definition to_bytes :: "int \<Rightarrow> nat \<Rightarrow> error + bytes" where
  "to_bytes x len =
     (if x < 0 then Inl OverflowError
      else if 256 ^ len \<le> x then Inl OverflowError
      else Inr (be_bytes len x))"

definition int_to_bytes :: "int \<Rightarrow> error + bytes" where
  "int_to_bytes x = to_bytes x ((bit_length x + 7) div 8)"

text \<open>\<^verbatim>\<open>int.from_bytes(x, 'big')\<close>.\<close>

definition from_bytes :: "bytes \<Rightarrow> int" where
  "from_bytes x = foldl (\<lambda>acc b. acc * 256 + uint b) 0 x"

definition bytes_to_int :: "bytes \<Rightarrow> int" where
  "bytes_to_int x = from_bytes x"

text \<open>
  \<^verbatim>\<open>bytes(n)\<close> for an integer \<open>n\<close>: \<open>n\<close> zero bytes, and ValueError for a
  negative count. It is not an encoding of the value of \<open>n\<close>. Memory is taken as
  unbounded: no count is too large.
\<close>

definition bytes_of_count :: "int \<Rightarrow> error + bytes" where
  "bytes_of_count n = (if n < 0 then Inl ValueError else Inr (replicate (nat n) 0))"

text \<open>
  The slices \<^verbatim>\<open>x[:n]\<close> and \<^verbatim>\<open>x[n:]\<close>: a negative \<open>n\<close> counts from the end,
  and a bound outside the sequence is clamped to it.
\<close>

definition slice_bound :: "int \<Rightarrow> 'a list \<Rightarrow> nat" where
  "slice_bound n x = (if n < 0 then nat (int (length x) + n) else nat n)"

definition slice_to :: "int \<Rightarrow> 'a list \<Rightarrow> 'a list" where
  "slice_to n x = take (slice_bound n x) x"

definition slice_from :: "int \<Rightarrow> 'a list \<Rightarrow> 'a list" where
  "slice_from n x = drop (slice_bound n x) x"

subsection \<open>SHA-256 (\<open>hashlib.sha256(m).digest()\<close>), after FIPS 180-4\<close>

type_synonym w32 = "32 word"

text \<open>
  The constants are fractional parts of roots of the first primes: the round constants
  are the first 32 bits of the fractional parts of the cube roots of the first 64 primes,
  the initial hash value those of the square roots of the first 8 primes.
  \<open>floor_root k n\<close> is the integer part of the \<open>k\<close>-th root of \<open>n\<close>, for \<open>n\<close> below
  \<open>2 ^ (40 * k)\<close>, found bit by bit from the highest.
\<close>

fun root_bits :: "nat \<Rightarrow> nat \<Rightarrow> int \<Rightarrow> int \<Rightarrow> int" where
  "root_bits k 0 n r = r"
| "root_bits k (Suc b) n r =
     (let c = r + 2 ^ b in root_bits k b n (if c ^ k \<le> n then c else r))"

definition floor_root :: "nat \<Rightarrow> int \<Rightarrow> int" where
  "floor_root k n = root_bits k 40 n 0"

definition first_primes :: "int list" where
  "first_primes =
    [2, 3, 5, 7, 11, 13, 17, 19, 23, 29, 31, 37, 41, 43, 47, 53,
     59, 61, 67, 71, 73, 79, 83, 89, 97, 101, 103, 107, 109, 113, 127, 131,
     137, 139, 149, 151, 157, 163, 167, 173, 179, 181, 191, 193, 197, 199, 211, 223,
     227, 229, 233, 239, 241, 251, 257, 263, 269, 271, 277, 281, 283, 293, 307, 311]"

definition sha_K :: "w32 list" where
  "sha_K = map (\<lambda>p. word_of_int (floor_root 3 (p * 2 ^ 96))) first_primes"

definition sha_H0 :: "w32 list" where
  "sha_H0 = map (\<lambda>p. word_of_int (floor_root 2 (p * 2 ^ 64))) (take 8 first_primes)"

definition rotr :: "nat \<Rightarrow> w32 \<Rightarrow> w32" where
  "rotr n x = word_rotr n x"

definition sha_Ch :: "w32 \<Rightarrow> w32 \<Rightarrow> w32 \<Rightarrow> w32" where
  "sha_Ch x y z = (x AND y) XOR (NOT x AND z)"

definition sha_Maj :: "w32 \<Rightarrow> w32 \<Rightarrow> w32 \<Rightarrow> w32" where
  "sha_Maj x y z = (x AND y) XOR (x AND z) XOR (y AND z)"

definition big_sigma0 :: "w32 \<Rightarrow> w32" where
  "big_sigma0 x = rotr 2 x XOR rotr 13 x XOR rotr 22 x"

definition big_sigma1 :: "w32 \<Rightarrow> w32" where
  "big_sigma1 x = rotr 6 x XOR rotr 11 x XOR rotr 25 x"

definition small_sigma0 :: "w32 \<Rightarrow> w32" where
  "small_sigma0 x = rotr 7 x XOR rotr 18 x XOR drop_bit 3 x"

definition small_sigma1 :: "w32 \<Rightarrow> w32" where
  "small_sigma1 x = rotr 17 x XOR rotr 19 x XOR drop_bit 10 x"

text \<open>Padding: a one bit, zero bits up to 56 modulo 64 bytes, the bit length on 8 bytes.\<close>

definition sha_pad :: "bytes \<Rightarrow> bytes" where
  "sha_pad m =
     m @ [0x80] @ replicate ((64 - (length m + 9) mod 64) mod 64) 0
       @ be_bytes 8 (8 * int (length m))"

fun be_words :: "bytes \<Rightarrow> w32 list" where
  "be_words (a # b # c # d # rest) =
     (push_bit 24 (ucast a) OR push_bit 16 (ucast b) OR push_bit 8 (ucast c) OR ucast d)
       # be_words rest"
| "be_words _ = []"

text \<open>The message schedule: \<open>k\<close> more words after those of \<open>w\<close>.\<close>

fun sha_schedule :: "nat \<Rightarrow> w32 list \<Rightarrow> w32 list" where
  "sha_schedule 0 w = w"
| "sha_schedule (Suc k) w =
     (let t = length w in
      sha_schedule k
        (w @ [small_sigma1 (w ! (t - 2)) + w ! (t - 7)
                + small_sigma0 (w ! (t - 15)) + w ! (t - 16)]))"

fun sha_round :: "w32 list \<Rightarrow> w32 \<times> w32 \<Rightarrow> w32 list" where
  "sha_round [a, b, c, d, e, f, g, h] (k, w) =
     (let t1 = h + big_sigma1 e + sha_Ch e f g + k + w;
          t2 = big_sigma0 a + sha_Maj a b c
      in [t1 + t2, a, b, c, d + t1, e, f, g])"
| "sha_round st _ = st"

definition sha_compress :: "w32 list \<Rightarrow> bytes \<Rightarrow> w32 list" where
  "sha_compress hs block =
     map (\<lambda>(x, y). x + y)
       (zip hs (foldl sha_round hs (zip sha_K (sha_schedule 48 (be_words block)))))"

fun sha_blocks :: "nat \<Rightarrow> w32 list \<Rightarrow> bytes \<Rightarrow> w32 list" where
  "sha_blocks 0 hs m = hs"
| "sha_blocks (Suc k) hs m = sha_blocks k (sha_compress hs (take 64 m)) (drop 64 m)"

definition word_bytes :: "w32 \<Rightarrow> bytes" where
  "word_bytes x =
     [ucast (drop_bit 24 x), ucast (drop_bit 16 x), ucast (drop_bit 8 x), ucast x]"

definition sha256 :: "bytes \<Rightarrow> bytes" where
  "sha256 m =
     (let p = sha_pad m in concat (map word_bytes (sha_blocks (length p div 64) sha_H0 p)))"

subsection \<open>The entropy source\<close>

text \<open>
  \<open>dev_urandom_entropy\<close> is \<open>os.urandom\<close>: the operating system's random bytes.
  The bytes still to be drawn are a tape; drawing returns the bytes and the rest of the
  tape. A negative count is a ValueError.
\<close>

type_synonym entropy = "nat \<Rightarrow> byte"

definition dev_urandom_entropy :: "int \<Rightarrow> entropy \<Rightarrow> error + (bytes \<times> entropy)" where
  "dev_urandom_entropy numbytes tape =
     (if numbytes < 0 then Inl ValueError
      else Inr (map tape [0..<nat numbytes], \<lambda>i. tape (i + nat numbytes)))"

subsection \<open>\<open>generate\<close> and \<open>verify\<close>\<close>

definition generate ::
  "int \<Rightarrow> int \<Rightarrow> bytes option \<Rightarrow> entropy \<Rightarrow> error + ((bytes \<times> bytes) \<times> entropy)" where
  "generate n nonce forged_bytes tape =
     (case (case forged_bytes of
              None \<Rightarrow> dev_urandom_entropy n tape
            | Some fb \<Rightarrow> Inr (fb, tape)) of
        Inl e \<Rightarrow> Inl e
      | Inr (random_bytes, tape') \<Rightarrow>
          (case int_to_bytes nonce of
             Inl e \<Rightarrow> Inl e
           | Inr nonce_bytes \<Rightarrow>
               Inr ((random_bytes, sha256 (random_bytes @ nonce_bytes)), tape')))"

definition verify :: "bytes \<Rightarrow> int \<Rightarrow> bytes \<Rightarrow> error + bool" where
  "verify random_bytes nonce random_hash =
     (case int_to_bytes nonce of
        Inl e \<Rightarrow> Inl e
      | Inr nonce_bytes \<Rightarrow> Inr (random_hash = sha256 (random_bytes @ nonce_bytes)))"

subsection \<open>The NaCl box\<close>

text \<open>
  \<open>nacl.public\<close> is a library the module calls; its \<open>Box\<close> is modelled symbolically,
  as perfect authenticated encryption. A private key is its secret scalar, the public key
  of a private key carries the same scalar, and the key \<open>Box(sk, pk)\<close> agrees on is the
  unordered pair of the two scalars, so that \<open>Box(skA, pkB)\<close> and \<open>Box(skB, pkA)\<close>
  hold the same key. An encrypted message records the 24-byte transport nonce that
  \<open>Box.encrypt\<close> draws, the key it was sealed with and the plaintext; \<open>Box.decrypt\<close>
  opens it with that very key only and raises CryptoError otherwise.
\<close>

datatype private_key = PrivateKey nat

datatype public_key = PublicKey nat

fun public_key_of :: "private_key \<Rightarrow> public_key" where
  "public_key_of (PrivateKey a) = PublicKey a"

datatype shared_key = SharedKey nat nat

type_synonym box = shared_key

fun Box :: "private_key \<Rightarrow> public_key \<Rightarrow> box" where
  "Box (PrivateKey a) (PublicKey b) = SharedKey (min a b) (max a b)"

datatype encrypted_message =
  EncryptedMessage (transport_nonce: bytes) (sealed_with: shared_key) (sealed: bytes)

definition box_encrypt :: "box \<Rightarrow> bytes \<Rightarrow> entropy \<Rightarrow> encrypted_message \<times> entropy" where
  "box_encrypt box plaintext tape =
     (EncryptedMessage (map tape [0..<24]) box plaintext, \<lambda>i. tape (i + 24))"

definition box_decrypt :: "box \<Rightarrow> encrypted_message \<Rightarrow> error + bytes" where
  "box_decrypt box ciphertext =
     (if sealed_with ciphertext = box then Inr (sealed ciphertext) else Inl CryptoError)"

subsection \<open>\<open>encrypt\<close> and \<open>decrypt\<close>\<close>

text \<open>\<^verbatim>\<open>box.encrypt(random_bytes + bytes(nonce))\<close>.\<close>

definition encrypt ::
  "bytes \<Rightarrow> int \<Rightarrow> private_key \<Rightarrow> public_key \<Rightarrow> entropy
    \<Rightarrow> error + (encrypted_message \<times> entropy)" where
  "encrypt random_bytes nonce private_key public_key tape =
     (let box = Box private_key public_key in
      case bytes_of_count nonce of
        Inl e \<Rightarrow> Inl e
      | Inr nonce_bytes \<Rightarrow> Inr (box_encrypt box (random_bytes @ nonce_bytes) tape))"

text \<open>
  \<^verbatim>\<open>decrypted[:n]\<close> and \<^verbatim>\<open>int.from_bytes(decrypted[n:], 'big')\<close>: the two slices,
  with no look at the length of \<open>decrypted\<close>.
\<close>

definition decrypt ::
  "int \<Rightarrow> encrypted_message \<Rightarrow> private_key \<Rightarrow> public_key \<Rightarrow> error + (bytes \<times> int)" where
  "decrypt n encrypted private_key public_key =
     (let box = Box private_key public_key in
      case box_decrypt box encrypted of
        Inl e \<Rightarrow> Inl e
      | Inr decrypted \<Rightarrow>
          (let random_bytes = slice_to n decrypted;
               nonce = from_bytes (slice_from n decrypted)
           in Inr (random_bytes, nonce)))"

subsection \<open>Notions of the specification\<close>

text \<open>
  The byte string that \<open>generate\<close> and \<open>verify\<close> hash:
  \<^verbatim>\<open>random_bytes + int_to_bytes(nonce)\<close>.
\<close>

definition preimage :: "bytes \<Rightarrow> int \<Rightarrow> error + bytes" where
  "preimage random_bytes nonce =
     (case int_to_bytes nonce of
        Inl e \<Rightarrow> Inl e
      | Inr nonce_bytes \<Rightarrow> Inr (random_bytes @ nonce_bytes))"

text \<open>
  The round trip \<^verbatim>\<open>decrypt(len(secret), encrypt(secret, nonce, skA, pkB), skB, pkA)\<close>
  between the key pairs of \<open>skA\<close> and \<open>skB\<close>.
\<close>

definition encrypt_then_decrypt ::
  "bytes \<Rightarrow> int \<Rightarrow> private_key \<Rightarrow> private_key \<Rightarrow> entropy \<Rightarrow> error + (bytes \<times> int)" where
  "encrypt_then_decrypt secret nonce skA skB tape =
     (case encrypt secret nonce skA (public_key_of skB) tape of
        Inl e \<Rightarrow> Inl e
      | Inr (encrypted, tape') \<Rightarrow>
          decrypt (int (length secret)) encrypted skB (public_key_of skA))"

text \<open>The XOR of the bytes at index \<open>i\<close> of all the byte strings of \<open>xs\<close>.\<close>

definition xor_column :: "nat \<Rightarrow> bytes list \<Rightarrow> byte" where
  "xor_column i xs = foldr (\<lambda>x acc. x ! i XOR acc) xs 0"

text \<open>An entropy tape for the examples: the bytes 0, 1, 2, ...\<close>

definition counting_tape :: entropy where
  "counting_tape i = of_nat i"

section \<open>Lemmas about the model\<close>

subsection \<open>Integers and their bytes\<close>

lemma bit_length_nat_bound: "n < 2 ^ bit_length_nat n"
proof (induction n rule: bit_length_nat.induct)
  case (1 n)
  show ?case
  proof (cases "n = 0")
    case True
    then show ?thesis by (simp add: bit_length_nat.simps)
  next
    case False
    with 1 have "n div 2 < 2 ^ bit_length_nat (n div 2)" by simp
    then have "n < 2 * 2 ^ bit_length_nat (n div 2)" by linarith
    with False show ?thesis by (subst bit_length_nat.simps) simp
  qed
qed

lemma fits_byte_count:
  assumes "0 \<le> x"
  shows "x < 256 ^ ((bit_length x + 7) div 8)"
proof -
  let ?b = "bit_length x"
  have "nat x < 2 ^ ?b"
    using assms bit_length_nat_bound [of "nat x"] by (simp add: bit_length_def)
  also have "(2::nat) ^ ?b \<le> 2 ^ (8 * ((?b + 7) div 8))"
    by (rule power_increasing) auto
  also have "\<dots> = 256 ^ ((?b + 7) div 8)"
    by (simp add: power_mult)
  finally have "nat x < 256 ^ ((?b + 7) div 8)" .
  then have "int (nat x) < int (256 ^ ((?b + 7) div 8))"
    by (rule iffD2 [OF of_nat_less_iff])
  with assms show ?thesis by simp
qed

lemma int_to_bytes_nonneg:
  "0 \<le> x \<Longrightarrow> int_to_bytes x = Inr (be_bytes ((bit_length x + 7) div 8) x)"
  using fits_byte_count [of x] by (simp add: int_to_bytes_def to_bytes_def)

lemma int_to_bytes_negative: "x < 0 \<Longrightarrow> int_to_bytes x = Inl OverflowError"
  by (simp add: int_to_bytes_def to_bytes_def)

lemma from_bytes_snoc: "from_bytes (bs @ [b]) = from_bytes bs * 256 + uint b"
  by (simp add: from_bytes_def)

lemma from_bytes_be_bytes: "from_bytes (be_bytes len v) = v mod 256 ^ len"
proof (induction len arbitrary: v)
  case 0
  then show ?case by (simp add: from_bytes_def)
next
  case (Suc len)
  have "uint (word_of_int (v mod 256) :: byte) = v mod 256"
    by (simp add: uint_word_of_int take_bit_eq_mod)
  then have "from_bytes (be_bytes (Suc len) v) = (v div 256 mod 256 ^ len) * 256 + v mod 256"
    by (simp add: from_bytes_snoc Suc.IH)
  also have "\<dots> = v mod 256 ^ Suc len"
    using zmod_zmult2_eq [of "256 ^ len" v 256] by (simp add: mult.commute)
  finally show ?case .
qed

lemma from_bytes_int_to_bytes:
  assumes "0 \<le> x" and "int_to_bytes x = Inr bs"
  shows "from_bytes bs = x"
proof -
  have "bs = be_bytes ((bit_length x + 7) div 8) x"
    using assms int_to_bytes_nonneg [of x] by simp
  then show ?thesis
    using assms(1) fits_byte_count [of x] by (simp add: from_bytes_be_bytes)
qed

lemma int_to_bytes_zero: "int_to_bytes 0 = Inr []"
  by (simp add: int_to_bytes_def to_bytes_def bit_length_def bit_length_nat.simps)

lemma int_to_bytes_258: "int_to_bytes 258 = Inr [1, 2]"
  by code_simp

lemma int_to_bytes_2: "int_to_bytes 2 = Inr [2]"
  by code_simp

lemma verify_preimage:
  "verify s n h = (case preimage s n of Inl e \<Rightarrow> Inl e | Inr p \<Rightarrow> Inr (h = sha256 p))"
  by (simp add: verify_def preimage_def split: sum.splits)

lemma int_to_bytes_inject:
  assumes "0 \<le> n1" "0 \<le> n2" "int_to_bytes n1 = int_to_bytes n2"
  shows "n1 = n2"
proof -
  obtain bs where b1: "int_to_bytes n1 = Inr bs"
    using assms(1) int_to_bytes_nonneg by blast
  with assms(3) have b2: "int_to_bytes n2 = Inr bs" by simp
  have "n1 = from_bytes bs" using from_bytes_int_to_bytes [OF assms(1) b1] by simp
  also have "\<dots> = n2" by (rule from_bytes_int_to_bytes [OF assms(2) b2])
  finally show ?thesis .
qed

subsection \<open>\<open>xor_all\<close>\<close>

lemma length_xor_bytes: "length (xor_bytes a b) = min (length a) (length b)"
  by (simp add: xor_bytes_def)

lemma nth_xor_bytes:
  "i < length a \<Longrightarrow> i < length b \<Longrightarrow> xor_bytes a b ! i = a ! i XOR b ! i"
  by (simp add: xor_bytes_def)

lemma xor_bytes_commute: "xor_bytes a b = xor_bytes b a"
proof (rule nth_equalityI)
  show "length (xor_bytes a b) = length (xor_bytes b a)"
    by (simp add: length_xor_bytes min.commute)
next
  fix i assume "i < length (xor_bytes a b)"
  then have "i < length a" "i < length b" by (simp_all add: length_xor_bytes)
  then show "xor_bytes a b ! i = xor_bytes b a ! i"
    by (simp add: nth_xor_bytes xor.commute)
qed

lemma length_xor_loop: "length (xor_loop r ys) = fold min (map length ys) (length r)"
  by (induction ys arbitrary: r) (simp_all add: length_xor_bytes min.commute)

lemma length_xor_loop_Min: "length (xor_loop r ys) = Min (set (map length (r # ys)))"
  using Min.set_eq_fold [of "length r" "map length ys"] by (simp add: length_xor_loop)

lemma length_xor_loop_le: "length (xor_loop r ys) \<le> length r"
proof (induction ys arbitrary: r)
  case Nil
  then show ?case by simp
next
  case (Cons y ys)
  have "length (xor_loop (xor_bytes r y) ys) \<le> length (xor_bytes r y)"
    by (rule Cons.IH)
  also have "\<dots> \<le> length r"
    by (simp add: length_xor_bytes)
  finally show ?case by simp
qed

lemma length_xor_loop_le_elem: "y \<in> set ys \<Longrightarrow> length (xor_loop r ys) \<le> length y"
proof (induction ys arbitrary: r)
  case Nil
  then show ?case by simp
next
  case (Cons z zs)
  show ?case
  proof (cases "y = z")
    case True
    have "length (xor_loop (xor_bytes r z) zs) \<le> length (xor_bytes r z)"
      by (rule length_xor_loop_le)
    then show ?thesis using True by (simp add: length_xor_bytes)
  next
    case False
    with Cons.prems have "y \<in> set zs" by simp
    then show ?thesis using Cons.IH by simp
  qed
qed

lemma nth_xor_loop:
  "i < length (xor_loop r ys) \<Longrightarrow>
     xor_loop r ys ! i = foldl (XOR) (r ! i) (map (\<lambda>y. y ! i) ys)"
proof (induction ys arbitrary: r)
  case Nil
  then show ?case by simp
next
  case (Cons y ys)
  have "length (xor_loop (xor_bytes r y) ys) \<le> length (xor_bytes r y)"
    by (rule length_xor_loop_le)
  with Cons.prems have "i < length r" "i < length y"
    by (simp_all add: length_xor_bytes)
  then have "xor_bytes r y ! i = r ! i XOR y ! i"
    by (rule nth_xor_bytes)
  with Cons show ?case by simp
qed

lemma foldl_xor_column:
  "foldl (XOR) a (map (\<lambda>y. y ! i) ys) = a XOR xor_column i ys"
  by (induction ys arbitrary: a) (simp_all add: xor_column_def xor.assoc)

lemma nth_xor_loop_column:
  "i < length (xor_loop r ys) \<Longrightarrow> xor_loop r ys ! i = xor_column i (r # ys)"
  by (simp add: nth_xor_loop foldl_xor_column) (simp add: xor_column_def)

lemma xor_all_value:
  assumes "xs \<noteq> []"
  shows "\<exists>r. xor_all xs = Inr r \<and> length r = Min (set (map length xs))
           \<and> (\<forall>i<length r. r ! i = xor_column i xs)"
proof -
  from assms obtain x0 rest where xs: "xs = x0 # rest" by (cases xs) auto
  show ?thesis
    unfolding xs using length_xor_loop_Min [of x0 rest] nth_xor_loop_column [of _ x0 rest]
    by simp
qed

subsection \<open>The box and the slices\<close>

lemma Box_symmetric: "Box skA (public_key_of skB) = Box skB (public_key_of skA)"
  by (cases skA; cases skB) (simp add: min.commute max.commute)

lemma from_bytes_zeros: "from_bytes (replicate k 0) = 0"
  by (induction k) (simp_all add: from_bytes_def)

lemma slice_at_length:
  "slice_to (int (length s)) (s @ t) = s" "slice_from (int (length s)) (s @ t) = t"
  by (simp_all add: slice_to_def slice_from_def slice_bound_def)

lemma slice_beyond_length:
  "int (length p) < n \<Longrightarrow> slice_to n p = p"
  "int (length p) < n \<Longrightarrow> slice_from n p = []"
  by (simp_all add: slice_to_def slice_from_def slice_bound_def)

lemma encrypt_then_decrypt_nonneg:
  "0 \<le> nonce \<Longrightarrow> encrypt_then_decrypt secret nonce skA skB tape = Inr (secret, 0)"
  by (simp add: encrypt_then_decrypt_def encrypt_def decrypt_def bytes_of_count_def
      box_encrypt_def box_decrypt_def Box_symmetric slice_at_length from_bytes_zeros)

lemma encrypt_then_decrypt_negative:
  "nonce < 0 \<Longrightarrow> encrypt_then_decrypt secret nonce skA skB tape = Inl ValueError"
  by (simp add: encrypt_then_decrypt_def encrypt_def bytes_of_count_def)

lemma decrypt_error:
  "decrypt n encrypted private_key public_key = Inl e \<Longrightarrow> e = CryptoError"
  by (simp add: decrypt_def box_decrypt_def split: if_splits)

section \<open>The claims\<close>

text \<open>
  C1. Encryption round trip: for valid key pairs, a secret and a non-negative nonce,
  \<open>decrypt(len(secret), encrypt(secret, nonce, skA, pkB), skB, pkA)\<close> should return
  \<open>(secret, nonce)\<close>. The code does not: \<open>encrypt\<close> appends \<open>bytes(nonce)\<close>, which
  is \<open>nonce\<close> zero bytes and not an encoding of the nonce, and \<open>decrypt\<close> reads them back
  as the integer 0. At secret \<open>de ad\<close> and nonce 1 the round trip returns the secret with
  nonce 0.
\<close>

theorem encrypt_then_decrypt_drops_nonce:
  "encrypt_then_decrypt [0xde, 0xad] 1 (PrivateKey 1) (PrivateKey 2) counting_tape
     = Inr ([0xde, 0xad], 0)"
  by (simp add: encrypt_then_decrypt_def encrypt_def decrypt_def bytes_of_count_def
      box_encrypt_def box_decrypt_def slice_to_def slice_from_def slice_bound_def
      from_bytes_def)

text \<open>
  C2. The claim that \<open>secret \<parallel> encode(nonce)\<close> differs for every two distinct pairs
  fails on the variable-width encoding of \<open>int_to_bytes\<close>: the secret \<open>07\<close> with nonce 258
  and the secret \<open>07 01\<close> with nonce 2 have the same hashed byte string \<open>07 01 02\<close>, and
  \<open>verify\<close> accepts the one hash for both.
\<close>

theorem preimage_collision:
  "(([7], 258) :: bytes \<times> int) \<noteq> ([7, 1], 2)
   \<and> preimage [7] 258 = Inr [7, 1, 2] \<and> preimage [7, 1] 2 = Inr [7, 1, 2]
   \<and> verify [7] 258 (sha256 [7, 1, 2]) = Inr True
   \<and> verify [7, 1] 2 (sha256 [7, 1, 2]) = Inr True"
  by (simp add: preimage_def verify_def int_to_bytes_258 int_to_bytes_2)

text \<open>
  C2, as amended. For non-negative nonces and secrets of the same length, two distinct
  pairs have distinct hashed byte strings, and \<open>verify\<close> compares the given hash with the
  SHA-256 digest of each: it accepts one hash for both only at a SHA-256 collision.
\<close>

theorem preimage_injective_same_length:
  assumes "0 \<le> n1" and "0 \<le> n2" and "length s1 = length s2" and "(s1, n1) \<noteq> (s2, n2)"
  shows "\<exists>p1 p2. preimage s1 n1 = Inr p1 \<and> preimage s2 n2 = Inr p2 \<and> p1 \<noteq> p2
           \<and> verify s1 n1 h = Inr (h = sha256 p1) \<and> verify s2 n2 h = Inr (h = sha256 p2)"
proof -
  obtain b1 where b1: "int_to_bytes n1 = Inr b1"
    using assms(1) int_to_bytes_nonneg by blast
  obtain b2 where b2: "int_to_bytes n2 = Inr b2"
    using assms(2) int_to_bytes_nonneg by blast
  have "s1 @ b1 \<noteq> s2 @ b2"
  proof
    assume "s1 @ b1 = s2 @ b2"
    with assms(3) have "s1 = s2" and "b1 = b2" by simp_all
    with b1 b2 have "int_to_bytes n1 = int_to_bytes n2" by simp
    then have "n1 = n2" by (rule int_to_bytes_inject [OF assms(1) assms(2)])
    with \<open>s1 = s2\<close> assms(4) show False by simp
  qed
  with b1 b2 show ?thesis by (simp add: preimage_def verify_def)
qed

theorem preimage_injective_same_length_witness:
  "(0::int) \<le> 258 \<and> (0::int) \<le> 2 \<and> length [7 :: byte] = length [9 :: byte]
   \<and> (([7], 258) :: bytes \<times> int) \<noteq> ([9], 2)
   \<and> (\<exists>p1 p2. preimage [7] 258 = Inr p1 \<and> preimage [9] 2 = Inr p2 \<and> p1 \<noteq> p2
         \<and> verify [7] 258 (sha256 [7, 1, 2]) = Inr (sha256 [7, 1, 2] = sha256 p1)
         \<and> verify [9] 2 (sha256 [7, 1, 2]) = Inr (sha256 [7, 1, 2] = sha256 p2))"
  using preimage_injective_same_length [of 258 2 "[7]" "[9]" "sha256 [7, 1, 2]"] by simp

text \<open>
  C3. Hash round trip: for every byte string \<open>s\<close> and every non-negative nonce,
  \<open>generate\<close> returns a secret and a hash that \<open>verify\<close> accepts with the same nonce:
  with \<open>s\<close> as the forged bytes the secret is \<open>s\<close>, and with no forged bytes and a
  length \<open>n \<ge> 0\<close> the secret is \<open>n\<close> bytes drawn from the entropy source.
\<close>

theorem verify_accepts_generated:
  assumes "0 \<le> nonce"
  shows "(\<exists>h. generate n nonce (Some s) tape = Inr ((s, h), tape)
            \<and> verify s nonce h = Inr True)
       \<and> (0 \<le> n \<longrightarrow>
            (\<exists>r h tape'. generate n nonce None tape = Inr ((r, h), tape')
               \<and> length r = nat n \<and> verify r nonce h = Inr True))"
proof -
  obtain nb where nb: "int_to_bytes nonce = Inr nb"
    using assms int_to_bytes_nonneg by blast
  have forged: "generate n nonce (Some s) tape = Inr ((s, sha256 (s @ nb)), tape)"
    by (simp add: generate_def nb)
  have checked: "verify r nonce (sha256 (r @ nb)) = Inr True" for r
    by (simp add: verify_def nb)
  have drawn: "generate n nonce None tape
      = Inr ((map tape [0..<nat n], sha256 (map tape [0..<nat n] @ nb)),
             \<lambda>i. tape (i + nat n))" if "0 \<le> n"
    using that by (simp add: generate_def dev_urandom_entropy_def nb)
  show ?thesis
    using forged checked drawn by simp
qed

theorem verify_accepts_generated_witness:
  "(0::int) \<le> 5 \<and> (0::int) \<le> 2
   \<and> (\<exists>h. generate 2 5 (Some [9, 8]) counting_tape = Inr (([9, 8], h), counting_tape)
          \<and> verify [9, 8] 5 h = Inr True)
   \<and> (\<exists>r h tape'. generate 2 5 None counting_tape = Inr ((r, h), tape')
          \<and> length r = 2 \<and> verify r 5 h = Inr True)"
  using verify_accepts_generated [of 5 2 "[9, 8]" counting_tape] by simp

text \<open>
  C4. The claim that \<open>xor_all\<close> fails on byte strings of differing lengths does not hold:
  \<open>zip\<close> cuts each operand to the shorter one, and \<open>xor_all\<close> returns a value. On
  \<open>01 02\<close> and \<open>03\<close> it returns \<open>02\<close>.
\<close>

theorem xor_all_unequal_lengths:
  "length [1, 2 :: byte] \<noteq> length [3 :: byte] \<and> xor_all [[1, 2], [3]] = Inr [2]"
  by (simp add: xor_bytes_def)

text \<open>
  C4, as amended. On a list holding byte strings of differing lengths \<open>xor_all\<close> returns
  a byte string as long as the shortest of them, whose byte at each index is the XOR of
  the bytes of all the inputs at that index.
\<close>

theorem xor_all_truncates:
  assumes "x \<in> set xs" and "y \<in> set xs" and "length x \<noteq> length y"
  shows "\<exists>r. xor_all xs = Inr r \<and> length r = Min (set (map length xs))
           \<and> (\<forall>i<length r. r ! i = xor_column i xs)"
proof -
  from assms(1) have "xs \<noteq> []" by auto
  then show ?thesis by (rule xor_all_value)
qed

theorem xor_all_truncates_witness:
  "[1, 2] \<in> set [[1, 2], [3 :: byte]] \<and> [3] \<in> set [[1, 2], [3 :: byte]]
   \<and> length [1, 2 :: byte] \<noteq> length [3 :: byte]
   \<and> xor_all [[1, 2], [3]] = Inr [2]
   \<and> Min (set (map length [[1, 2], [3 :: byte]])) = 1
   \<and> xor_column 0 [[1, 2], [3]] = 2"
  using xor_all_truncates [of "[1, 2]" "[[1, 2], [3]]" "[3]"]
  by (simp add: xor_bytes_def xor_column_def)

text \<open>
  C5. On the empty list \<open>xor_all\<close> fails and returns no value: \<open>x[0]\<close> raises
  IndexError, the exception that stands for the empty input.
\<close>

theorem xor_all_empty: "xor_all [] = Inl IndexError \<and> (\<forall>r. xor_all [] \<noteq> Inr r)"
  by simp

text \<open>
  C6. The claim that \<open>generate\<close> rejects a secret length of zero does not hold: there is
  no check of \<open>n\<close>, the entropy source returns the empty byte string, and \<open>generate\<close>
  returns it with its hash.
\<close>

theorem generate_zero_length:
  "generate 0 0 None counting_tape = Inr (([], sha256 []), counting_tape)"
  by (simp add: generate_def dev_urandom_entropy_def int_to_bytes_zero)

text \<open>
  C6, as amended. For a secret length of zero, no forged bytes and a non-negative nonce,
  \<open>generate\<close> returns the empty secret and the SHA-256 digest of the bytes of the nonce
  alone, and draws nothing from the entropy source.
\<close>

theorem generate_zero_length_accepted:
  assumes "0 \<le> nonce"
  shows "\<exists>nonce_bytes. int_to_bytes nonce = Inr nonce_bytes
           \<and> generate 0 nonce None tape = Inr (([], sha256 nonce_bytes), tape)"
proof -
  obtain nb where nb: "int_to_bytes nonce = Inr nb"
    using assms int_to_bytes_nonneg by blast
  then show ?thesis
    by (simp add: generate_def dev_urandom_entropy_def)
qed

theorem generate_zero_length_accepted_witness:
  "(0::int) \<le> 2 \<and> int_to_bytes 2 = Inr [2]
   \<and> generate 0 2 None counting_tape = Inr (([], sha256 [2]), counting_tape)"
  using generate_zero_length_accepted [of 2 counting_tape] by (simp add: int_to_bytes_2)

text \<open>
  C7. For a non-empty list of byte strings all of length \<open>L\<close>, \<open>xor_all\<close> returns a byte
  string of length \<open>L\<close> whose byte at each index is the XOR of the bytes of all the inputs
  at that index.
\<close>

theorem xor_all_same_length:
  assumes "xs \<noteq> []" and "\<forall>x\<in>set xs. length x = L"
  shows "\<exists>r. xor_all xs = Inr r \<and> length r = L \<and> (\<forall>i<L. r ! i = xor_column i xs)"
proof -
  from assms have "set (map length xs) = {L}" by (cases xs) auto
  then have "Min (set (map length xs)) = L" by simp
  with xor_all_value [OF assms(1)] show ?thesis by auto
qed

theorem xor_all_same_length_witness:
  "[[1, 2], [3, 4], [7, 7 :: byte]] \<noteq> []
   \<and> length [1, 2 :: byte] = 2 \<and> length [3, 4 :: byte] = 2 \<and> length [7, 7 :: byte] = 2
   \<and> xor_all [[1, 2], [3, 4], [7, 7]] = Inr [5, 1]
   \<and> xor_column 0 [[1, 2], [3, 4], [7, 7]] = 5
   \<and> xor_column 1 [[1, 2], [3, 4], [7, 7]] = 1"
  using xor_all_same_length [of "[[1, 2], [3, 4], [7, 7]]" 2]
  by (simp add: xor_bytes_def xor_column_def)

text \<open>
  C8. The claim that \<open>decrypt\<close> fails when the length of the plaintext is inconsistent
  with \<open>n\<close> does not hold: a plaintext of 2 bytes opened with \<open>n = 5\<close> is returned
  whole, with nonce 0.
\<close>

theorem decrypt_short_plaintext:
  "box_decrypt (Box (PrivateKey 2) (PublicKey 1))
       (EncryptedMessage (replicate 24 0) (SharedKey 1 2) [1, 2]) = Inr [1, 2]
   \<and> int (length [1, 2 :: byte]) < 5
   \<and> decrypt 5 (EncryptedMessage (replicate 24 0) (SharedKey 1 2) [1, 2])
       (PrivateKey 2) (PublicKey 1) = Inr ([1, 2], 0)"
  by (simp add: decrypt_def box_decrypt_def slice_to_def slice_from_def slice_bound_def
      from_bytes_def)

text \<open>
  C8, as amended. Whenever the box opens the ciphertext, \<open>decrypt\<close> returns the two
  slices \<open>decrypted[:n]\<close> and \<open>decrypted[n:]\<close>, the second read as a big-endian
  integer, whatever the length of the plaintext; for a plaintext shorter than \<open>n\<close> that
  is the whole plaintext and the nonce 0.
\<close>

theorem decrypt_no_length_check:
  assumes "box_decrypt (Box private_key public_key) encrypted = Inr decrypted"
  shows "decrypt n encrypted private_key public_key
           = Inr (slice_to n decrypted, from_bytes (slice_from n decrypted))
       \<and> (int (length decrypted) < n \<longrightarrow>
            decrypt n encrypted private_key public_key = Inr (decrypted, 0))"
  using assms by (simp add: decrypt_def slice_beyond_length from_bytes_def)

theorem decrypt_no_length_check_witness:
  "box_decrypt (Box (PrivateKey 2) (PublicKey 1))
       (EncryptedMessage (replicate 24 0) (SharedKey 1 2) [1, 2]) = Inr [1, 2]
   \<and> decrypt 5 (EncryptedMessage (replicate 24 0) (SharedKey 1 2) [1, 2])
       (PrivateKey 2) (PublicKey 1) = Inr (slice_to 5 [1, 2], from_bytes (slice_from 5 [1, 2]))
   \<and> decrypt 5 (EncryptedMessage (replicate 24 0) (SharedKey 1 2) [1, 2])
       (PrivateKey 2) (PublicKey 1) = Inr ([1, 2], 0)"
  using decrypt_no_length_check [of "PrivateKey 2" "PublicKey 1"
      "EncryptedMessage (replicate 24 0) (SharedKey 1 2) [1, 2]" "[1, 2]" 5]
  by (simp add: box_decrypt_def slice_to_def slice_from_def slice_bound_def from_bytes_def)

text \<open>
  C9. \<open>xor_all\<close> is commutative on two byte strings of equal length.
\<close>

theorem xor_all_commutative:
  "length a = length b \<Longrightarrow> xor_all [a, b] = xor_all [b, a]"
  by (simp add: xor_bytes_commute)

theorem xor_all_commutative_witness:
  "length [1, 2 :: byte] = length [3, 4 :: byte]
   \<and> xor_all [[1, 2], [3, 4]] = xor_all [[3, 4], [1, 2]]"
  using xor_all_commutative [of "[1, 2]" "[3, 4]"] by simp

text \<open>
  C10. \<open>int_to_bytes 0\<close> is the empty byte string, so with nonce 0 the hash that
  \<open>generate\<close> returns and that \<open>verify\<close> compares with is the SHA-256 digest of the
  secret alone, for forged bytes and for bytes drawn from the entropy source.
\<close>

theorem nonce_zero_hashes_secret_alone:
  "int_to_bytes 0 = Inr []
   \<and> generate n 0 (Some s) tape = Inr ((s, sha256 s), tape)
   \<and> (0 \<le> n \<longrightarrow>
        generate n 0 None tape
          = Inr ((map tape [0..<nat n], sha256 (map tape [0..<nat n])), \<lambda>i. tape (i + nat n)))
   \<and> verify s 0 h = Inr (h = sha256 s)"
  by (simp add: generate_def verify_def dev_urandom_entropy_def int_to_bytes_zero)

theorem nonce_zero_hashes_secret_alone_witness:
  "(0::int) \<le> 2
   \<and> generate 2 0 None counting_tape
       = Inr (([0, 1], sha256 [0, 1]), \<lambda>i. counting_tape (i + 2))
   \<and> generate 2 0 (Some [9, 8]) counting_tape = Inr (([9, 8], sha256 [9, 8]), counting_tape)
   \<and> verify [9, 8] 0 (sha256 [9, 8]) = Inr True"
  using nonce_zero_hashes_secret_alone [of 2 "[9, 8]" counting_tape "sha256 [9, 8]"]
  by (simp add: counting_tape_def upt_rec)

end
